theory Spec2Isabelle
  imports Complex_Main
begin

section \<open>Drag and drop of tree nodes: \<open>src/js/features/draggable.js\<close>\<close>

text \<open>
  The \<open>Draggable\<close> feature keeps a handful of fields on \<open>this\<close>, reads the tree
  through a few query methods, and writes to three places outside itself: the hover class
  of node elements (read back through \<open>util.hasClass\<close>), the browser's timeout queue
  (\<open>setTimeout\<close>/\<open>clearTimeout\<close>) and the tree (\<open>tree.move\<close>, \<open>tree.open\<close>,
  \<open>tree.on\<close>/\<open>tree.off\<close>). The model threads one record through every handler: the
  fields of \<open>this\<close> under their source names, followed by those three places.

  Writes that the feature never reads back (the helper element and its position, the
  boundary line's style, the drag item class, text selection) are left out.
  Coordinates are JavaScript numbers; they are modelled as reals.
\<close>

subsection \<open>Data\<close>

type_synonym node_id = string

text \<open>\<open>mousePos\<close>: the object \<open>{x, y}\<close> returned by \<open>util.getMousePos\<close>.\<close>

record point =
  x_pos :: real
  y_pos :: real

text \<open>\<open>targetPos\<close>: the result of \<open>getBoundingClientRect()\<close>.\<close>

record rect =
  top_r :: real
  bottom_r :: real
  left_r :: real
  right_r :: real

text \<open>\<open>lineBoundary\<close>: the object \<open>{top, bottom}\<close>.\<close>

record boundary =
  top_b :: real
  bottom_b :: real

text \<open>
  The moving line type is one of the strings \<open>'top'\<close> and \<open>'bottom'\<close>, or it is
  \<open>null\<close>/\<open>undefined\<close>, which is \<open>None\<close> here.
\<close>

datatype line_type = Top | Bottom

text \<open>
  An event target, as far as the handlers look at it: its tag name (\<open>tagName.toUpperCase()\<close>),
  its class names (\<open>util.getClass(target).split(/\s+/)\<close>) and the node id that
  \<open>tree.getNodeIdFromElement\<close> finds for it, \<open>None\<close> when that result is falsy.
\<close>

record element =
  tagName :: string
  classNames :: "string list"
  nodeId :: "node_id option"

record mouse_event =
  isRightButton :: bool
  getTarget :: element
  getMousePos :: point

text \<open>
  The tree and the document are collaborators outside this file; the handlers receive
  them as a parameter. Arguments and results that can be \<open>undefined\<close> or \<open>null\<close> in
  the source are options. \<open>isEditing\<close> is the value computed from
  \<open>tree.enabledFeatures.Editable\<close> in \<open>_onMousedown\<close>; \<open>getBoundingClientRect\<close> is
  \<open>document.getElementById(nodeId).getBoundingClientRect()\<close>.
\<close>

record tree =
  getRootNodeId :: node_id
  getChildIds :: "node_id \<Rightarrow> node_id list"
  getParentId :: "node_id option \<Rightarrow> node_id option"
  getNodeIndex :: "node_id option \<Rightarrow> int"
  isLeaf :: "node_id \<Rightarrow> bool"
  isEditing :: bool
  getBoundingClientRect :: "node_id \<Rightarrow> rect"

text \<open>The calls the feature makes on the tree that change it or its rendering.\<close>

datatype tree_call =
    Move "node_id option" "node_id option" int
  | Open node_id

text \<open>
  The options object given to the constructor; a property that is absent is \<open>None\<close>.
  Only the options that reach the logic are kept (not the class names and the helper
  position).
\<close>

record options =
  opt_useHelper :: "bool option"
  opt_lineBoundary :: "boundary option"
  opt_autoOpenDelay :: "int option"
  opt_isSortable :: "bool option"
  opt_rejectedTagNames :: "string list option"
  opt_rejectedClassNames :: "string list option"

text \<open>
  The feature's state. The first ten fields are fields of \<open>this\<close>. \<open>hoveredElement\<close>
  holds an element; an element is identified with the id it was fetched by
  (\<open>document.getElementById(nodeId)\<close>). Then:
  \<^item> \<open>hoverClassed\<close>: the node elements that carry \<open>hoverClassName\<close>;
  \<^item> \<open>timeouts\<close>: the pending timeouts, each with its handle, the time at which it is
    due and the node its callback opens; \<open>nextHandle\<close> is the next fresh handle and
    \<open>clock\<close> the current time in milliseconds;
  \<^item> \<open>attached\<close>: whether the \<open>mousemove\<close> and \<open>mouseup\<close> handlers are registered on
    the tree;
  \<^item> \<open>treeCalls\<close>: the calls made on the tree so far, in order.
\<close>

record draggable =
  rejectedTagNames :: "string list"
  rejectedClassNames :: "string list"
  useHelper :: bool
  autoOpenDelay :: int
  isSortable :: bool
  lineBoundary :: boundary
  currentNodeId :: "node_id option"
  hoveredElement :: "node_id option"
  movingLineType :: "line_type option"
  timer :: "nat option"
  hoverClassed :: "node_id set"
  timeouts :: "(nat \<times> int \<times> node_id) list"
  nextHandle :: nat
  clock :: int
  attached :: bool
  treeCalls :: "tree_call list"

datatype event =
    Mousedown mouse_event
  | Mousemove mouse_event
  | Mouseup mouse_event
  | Elapse nat

subsection \<open>Construction\<close>

text \<open>
  \<open>tui.util.extend({}, defaultOptions, options)\<close>: every property present in
  \<open>options\<close> replaces the default. \<open>concat\<close> of an absent list appends one
  \<open>undefined\<close> element, which equals no tag or class name, so it is dropped.
\<close>

definition defaultLineBoundary :: boundary where
  "defaultLineBoundary = \<lparr>top_b = 4, bottom_b = 4\<rparr>"

definition init :: "options \<Rightarrow> draggable" where
  "init opts =
     \<lparr>rejectedTagNames = [''INPUT'', ''BUTTON'', ''UL'']
          @ (case opt_rejectedTagNames opts of None \<Rightarrow> [] | Some ts \<Rightarrow> ts),
      rejectedClassNames = (case opt_rejectedClassNames opts of None \<Rightarrow> [] | Some cs \<Rightarrow> cs),
      useHelper = (case opt_useHelper opts of None \<Rightarrow> True | Some b \<Rightarrow> b),
      autoOpenDelay = (case opt_autoOpenDelay opts of None \<Rightarrow> 1500 | Some n \<Rightarrow> n),
      isSortable = (case opt_isSortable opts of None \<Rightarrow> False | Some b \<Rightarrow> b),
      lineBoundary = (case opt_lineBoundary opts of None \<Rightarrow> defaultLineBoundary | Some b \<Rightarrow> b),
      currentNodeId = None,
      hoveredElement = None,
      movingLineType = None,
      timer = None,
      hoverClassed = {},
      timeouts = [],
      nextHandle = 0,
      clock = 0,
      attached = False,
      treeCalls = []\<rparr>"

subsection \<open>Timeouts\<close>

text \<open>
  \<open>setTimeout(callback, delay)\<close> queues the callback \<open>delay\<close> milliseconds from now
  (a negative delay counts as zero) and returns a fresh handle. The only callback of this
  file is \<open>tree.open(nodeId)\<close>, so an entry records the node. \<open>clearTimeout\<close> removes
  the entry with the given handle and does nothing for \<open>null\<close>.
\<close>

definition setTimeout :: "draggable \<Rightarrow> node_id \<Rightarrow> int \<Rightarrow> nat \<times> draggable" where
  "setTimeout d n delay =
     (nextHandle d,
      d\<lparr>timeouts := timeouts d @ [(nextHandle d, clock d + max 0 delay, n)],
        nextHandle := Suc (nextHandle d)\<rparr>)"

definition clearTimeout :: "draggable \<Rightarrow> nat option \<Rightarrow> draggable" where
  "clearTimeout d h =
     (case h of
        None \<Rightarrow> d
      | Some k \<Rightarrow> d\<lparr>timeouts := filter (\<lambda>t. fst t \<noteq> k) (timeouts d)\<rparr>)"

text \<open>
  Time passing: the clock advances and every timeout that is due runs its callback,
  \<open>tree.open\<close> on its node, once, and leaves the queue.
\<close>

definition elapse :: "draggable \<Rightarrow> nat \<Rightarrow> draggable" where
  "elapse d ms =
     (let t = clock d + int ms;
          due = filter (\<lambda>e. fst (snd e) \<le> t) (timeouts d)
      in d\<lparr>clock := t,
           timeouts := filter (\<lambda>e. \<not> fst (snd e) \<le> t) (timeouts d),
           treeCalls := treeCalls d @ map (\<lambda>e. Open (snd (snd e))) due\<rparr>)"

subsection \<open>Geometry\<close>

definition isContain :: "draggable \<Rightarrow> rect \<Rightarrow> point \<Rightarrow> bool" where
  "isContain d targetPos mousePos =
     (let top' = (if isSortable d then top_r targetPos + top_b (lineBoundary d)
                  else top_r targetPos);
          bottom' = (if isSortable d then bottom_r targetPos - bottom_b (lineBoundary d)
                     else bottom_r targetPos)
      in if left_r targetPos < x_pos mousePos \<and>
            right_r targetPos > x_pos mousePos \<and>
            top' < y_pos mousePos \<and> bottom' > y_pos mousePos
         then True
         else False)"

definition getBoundaryType :: "draggable \<Rightarrow> rect \<Rightarrow> point \<Rightarrow> line_type option" where
  "getBoundaryType d targetPos mousePos =
     (if y_pos mousePos < top_r targetPos + top_b (lineBoundary d) then Some Top
      else if y_pos mousePos > bottom_r targetPos - bottom_b (lineBoundary d) then Some Bottom
      else None)"

definition drawBoundaryLine :: "draggable \<Rightarrow> rect \<Rightarrow> line_type option \<Rightarrow> draggable" where
  "drawBoundaryLine d targetPos boundaryType =
     (case boundaryType of
        Some b \<Rightarrow> d\<lparr>movingLineType := Some b\<rparr>
      | None \<Rightarrow> d\<lparr>movingLineType := None\<rparr>)"

subsection \<open>Hovering\<close>

text \<open>
  \<open>util.addClass\<close> and \<open>util.removeClass\<close> with the hover class name; on \<open>null\<close>
  they change nothing.
\<close>

definition addHoverClass :: "draggable \<Rightarrow> node_id option \<Rightarrow> draggable" where
  "addHoverClass d el =
     (case el of
        None \<Rightarrow> d
      | Some e \<Rightarrow> d\<lparr>hoverClassed := insert e (hoverClassed d)\<rparr>)"

definition removeHoverClass :: "draggable \<Rightarrow> node_id option \<Rightarrow> draggable" where
  "removeHoverClass d el =
     (case el of
        None \<Rightarrow> d
      | Some e \<Rightarrow> d\<lparr>hoverClassed := hoverClassed d - {e}\<rparr>)"

definition hover :: "tree \<Rightarrow> draggable \<Rightarrow> node_id \<Rightarrow> draggable" where
  "hover tr d n =
     (let d1 = addHoverClass d (hoveredElement d)
      in if isLeaf tr n then d1
         else (let (h, d2) = setTimeout d1 n (autoOpenDelay d1)
               in d2\<lparr>timer := Some h\<rparr>))"

definition unhover :: "draggable \<Rightarrow> draggable" where
  "unhover d =
     (let d1 = clearTimeout d (timer d);
          d2 = removeHoverClass d1 (hoveredElement d1)
      in d2\<lparr>hoveredElement := None, timer := None\<rparr>)"

definition applyMoveAction :: "tree \<Rightarrow> draggable \<Rightarrow> node_id \<Rightarrow> point \<Rightarrow> draggable" where
  "applyMoveAction tr d n mousePos =
     (let targetPos = getBoundingClientRect tr n;
          hasClass = (n \<in> hoverClassed d);
          isCont = isContain d targetPos mousePos;
          d1 = (if hoveredElement d = None \<and> isCont
                then hover tr (d\<lparr>hoveredElement := Some n\<rparr>) n
                else if \<not> hasClass \<or> (hasClass \<and> \<not> isCont) then unhover d
                else d)
      in if isSortable d1
         then drawBoundaryLine d1 targetPos (getBoundaryType d1 targetPos mousePos)
         else d1)"

subsection \<open>Resolving the drop\<close>

text \<open>\<open>xs[i]\<close> in JavaScript: \<open>undefined\<close> outside the array.\<close>

definition at_index :: "'a list \<Rightarrow> int \<Rightarrow> 'a option" where
  "at_index xs i = (if 0 \<le> i \<and> i < int (length xs) then Some (xs ! nat i) else None)"

definition getTargetNodeId :: "tree \<Rightarrow> draggable \<Rightarrow> element \<Rightarrow> node_id option" where
  "getTargetNodeId tr d target =
     (case nodeId target of
        Some n \<Rightarrow> Some n
      | None \<Rightarrow>
          (let childIds = getChildIds tr (getRootNodeId tr)
           in if movingLineType d = Some Top then at_index childIds 0
              else at_index childIds (int (length childIds) - 1)))"

definition getIndexToInsert :: "tree \<Rightarrow> draggable \<Rightarrow> node_id option \<Rightarrow> int" where
  "getIndexToInsert tr d n =
     (if movingLineType d = None then - 1
      else (let index = getNodeIndex tr n
            in if movingLineType d = Some Bottom then index + 1 else index))"

definition reset :: "draggable \<Rightarrow> draggable" where
  "reset d =
     (let d1 = (if hoveredElement d \<noteq> None
                then (removeHoverClass d (hoveredElement d))\<lparr>hoveredElement := None\<rparr>
                else d)
      in d1\<lparr>currentNodeId := None, movingLineType := None, attached := False\<rparr>)"

subsection \<open>Event handlers\<close>

text \<open>
  \<open>tui.util.forEach\<close> stops as soon as the callback returns \<open>false\<close>, which here is
  as soon as a class name is found among the rejected ones. \<open>result\<close> starts out
  \<open>undefined\<close> (\<open>None\<close>).
\<close>

fun forEachClassName :: "string list \<Rightarrow> string list \<Rightarrow> bool option \<Rightarrow> bool option" where
  "forEachClassName rejected [] result = result"
| "forEachClassName rejected (c # cs) result =
     (let r = (c \<in> set rejected)
      in if \<not> r then forEachClassName rejected cs (Some r) else Some r)"

definition isNotDraggable :: "draggable \<Rightarrow> element \<Rightarrow> bool" where
  "isNotDraggable d target =
     (if tagName target \<in> set (rejectedTagNames d) then True
      else forEachClassName (rejectedClassNames d) (classNames target) None = Some True)"

text \<open>
  With \<open>useHelper\<close> on, \<open>_onMousedown\<close> reads \<open>nodeElement.innerHTML\<close> of the text
  element of the node that was found. When the target belongs to no node there is no such
  element and the read throws: the handler stops there, after \<open>currentNodeId\<close> was
  assigned and before \<open>tree.on\<close>.
\<close>

definition onMousedown :: "tree \<Rightarrow> draggable \<Rightarrow> mouse_event \<Rightarrow> draggable" where
  "onMousedown tr d ev =
     (if isRightButton ev \<or> isNotDraggable d (getTarget ev) \<or> isEditing tr then d
      else (let d1 = d\<lparr>currentNodeId := nodeId (getTarget ev)\<rparr>
            in if useHelper d1 \<and> currentNodeId d1 = None then d1
               else d1\<lparr>attached := True\<rparr>))"

definition onMousemove :: "tree \<Rightarrow> draggable \<Rightarrow> mouse_event \<Rightarrow> draggable" where
  "onMousemove tr d ev =
     (if \<not> useHelper d then d
      else (case nodeId (getTarget ev) of
              None \<Rightarrow> d
            | Some n \<Rightarrow> applyMoveAction tr d n (getMousePos ev)))"

definition onMouseup :: "tree \<Rightarrow> draggable \<Rightarrow> mouse_event \<Rightarrow> draggable" where
  "onMouseup tr d ev =
     (let n = currentNodeId d;
          targetId = getTargetNodeId tr d (getTarget ev);
          index = getIndexToInsert tr d targetId;
          newParentId = (if index = - 1 then targetId else getParentId tr targetId)
      in reset (d\<lparr>treeCalls := treeCalls d @ [Move n newParentId index]\<rparr>))"

text \<open>
  The \<open>mousedown\<close> handler is registered by the constructor; \<open>mousemove\<close> and
  \<open>mouseup\<close> are delivered only while they are registered.
\<close>

definition step :: "tree \<Rightarrow> draggable \<Rightarrow> event \<Rightarrow> draggable" where
  "step tr d e =
     (case e of
        Mousedown ev \<Rightarrow> onMousedown tr d ev
      | Mousemove ev \<Rightarrow> (if attached d then onMousemove tr d ev else d)
      | Mouseup ev \<Rightarrow> (if attached d then onMouseup tr d ev else d)
      | Elapse ms \<Rightarrow> elapse d ms)"

fun run :: "tree \<Rightarrow> draggable \<Rightarrow> event list \<Rightarrow> draggable" where
  "run tr d [] = d"
| "run tr d (e # es) = run tr (step tr d e) es"

text \<open>
  The states the feature can be in: the freshly constructed one and every state an event
  leads to, whatever the tree looks like when the event arrives.
\<close>

inductive reachable :: "draggable \<Rightarrow> bool" where
  reachable_init: "reachable (init opts)"
| reachable_step: "reachable d \<Longrightarrow> reachable (step tr d e)"

subsection \<open>A sample tree\<close>

text \<open>
  Three root-level nodes \<open>A\<close>, \<open>B\<close>, \<open>C\<close>, each 20 pixels high and 100 wide,
  stacked from the top; \<open>B\<close> has one child \<open>B1\<close> and is the only inner node.
\<close>

definition noOptions :: options where
  "noOptions =
     \<lparr>opt_useHelper = None, opt_lineBoundary = None, opt_autoOpenDelay = None,
      opt_isSortable = None, opt_rejectedTagNames = None, opt_rejectedClassNames = None\<rparr>"

definition sampleRect :: "node_id \<Rightarrow> rect" where
  "sampleRect n =
     (if n = ''A'' then \<lparr>top_r = 0, bottom_r = 20, left_r = 0, right_r = 100\<rparr>
      else if n = ''B'' then \<lparr>top_r = 20, bottom_r = 40, left_r = 0, right_r = 100\<rparr>
      else if n = ''C'' then \<lparr>top_r = 40, bottom_r = 60, left_r = 0, right_r = 100\<rparr>
      else \<lparr>top_r = 0, bottom_r = 0, left_r = 0, right_r = 0\<rparr>)"

definition sampleTree :: tree where
  "sampleTree =
     \<lparr>getRootNodeId = ''root'',
      getChildIds = (\<lambda>n. if n = ''root'' then [''A'', ''B'', ''C'']
                         else if n = ''B'' then [''B1''] else []),
      getParentId = (\<lambda>n. if n = Some ''A'' \<or> n = Some ''B'' \<or> n = Some ''C'' then Some ''root''
                         else if n = Some ''B1'' then Some ''B'' else None),
      getNodeIndex = (\<lambda>n. if n = Some ''A'' then 0 else if n = Some ''B'' then 1
                          else if n = Some ''C'' then 2 else if n = Some ''B1'' then 0
                          else - 1),
      isLeaf = (\<lambda>n. n \<noteq> ''B'' \<and> n \<noteq> ''root''),
      isEditing = False,
      getBoundingClientRect = sampleRect\<rparr>"

definition emptyTree :: tree where
  "emptyTree = sampleTree\<lparr>getChildIds := (\<lambda>n. [])\<rparr>"

text \<open>A left-button event at \<open>(x, y)\<close> whose target is a text span of node \<open>n\<close>.\<close>

definition mouseAt :: "node_id option \<Rightarrow> real \<Rightarrow> real \<Rightarrow> mouse_event" where
  "mouseAt n x y =
     \<lparr>isRightButton = False,
      getTarget = \<lparr>tagName = ''SPAN'', classNames = [''tui-tree-text''], nodeId = n\<rparr>,
      getMousePos = \<lparr>x_pos = x, y_pos = y\<rparr>\<rparr>"

text \<open>Option objects that set one or two properties and leave the rest to the defaults.\<close>

definition sortableOptions :: options where
  "sortableOptions = noOptions\<lparr>opt_isSortable := Some True\<rparr>"

definition noHelperOptions :: options where
  "noHelperOptions = noOptions\<lparr>opt_useHelper := Some False, opt_isSortable := Some True\<rparr>"

definition negativeMarginOptions :: options where
  "negativeMarginOptions =
     noOptions\<lparr>opt_lineBoundary := Some \<lparr>top_b = - 1, bottom_b = 4\<rparr>,
               opt_isSortable := Some True\<rparr>"

definition negativeDelayOptions :: options where
  "negativeDelayOptions = noOptions\<lparr>opt_autoOpenDelay := Some (- 1)\<rparr>"

text \<open>
  Sessions on the sample tree: \<open>dragging opts n\<close> is the state after the button went
  down on node \<open>n\<close>, and \<open>draggingOver opts n m y\<close> the state after the pointer then
  moved over node \<open>m\<close> at height \<open>y\<close>.
\<close>

definition dragging :: "options \<Rightarrow> node_id \<Rightarrow> draggable" where
  "dragging opts n = run sampleTree (init opts) [Mousedown (mouseAt (Some n) 5 5)]"

definition draggingOver :: "options \<Rightarrow> node_id \<Rightarrow> node_id \<Rightarrow> real \<Rightarrow> draggable" where
  "draggingOver opts n m y =
     run sampleTree (init opts) [Mousedown (mouseAt (Some n) 5 5), Mousemove (mouseAt (Some m) 5 y)]"

text \<open>
  The hover class and \<open>hoveredElement\<close> agree: the elements that carry the hover class
  are exactly the hovered element, if there is one.
\<close>

definition hoverInv :: "draggable \<Rightarrow> bool" where
  "hoverInv d \<longleftrightarrow> hoverClassed d = set_option (hoveredElement d)"

section \<open>Properties\<close>

subsection \<open>Unfolding sets and field lemmas\<close>

lemmas sample_defs =
  init_def noOptions_def sampleTree_def emptyTree_def sampleRect_def mouseAt_def
  defaultLineBoundary_def sortableOptions_def noHelperOptions_def negativeMarginOptions_def
  negativeDelayOptions_def dragging_def draggingOver_def

lemmas handler_defs =
  step_def onMousedown_def onMousemove_def onMouseup_def isNotDraggable_def
  applyMoveAction_def isContain_def getBoundaryType_def drawBoundaryLine_def
  hover_def unhover_def setTimeout_def clearTimeout_def elapse_def reset_def
  getTargetNodeId_def getIndexToInsert_def addHoverClass_def removeHoverClass_def
  at_index_def Let_def

lemma drawBoundaryLine_simps [simp]:
  "hoveredElement (drawBoundaryLine d r b) = hoveredElement d"
  "hoverClassed (drawBoundaryLine d r b) = hoverClassed d"
  "movingLineType (drawBoundaryLine d r b) = b"
  "isSortable (drawBoundaryLine d r b) = isSortable d"
  "lineBoundary (drawBoundaryLine d r b) = lineBoundary d"
  by (simp_all add: drawBoundaryLine_def split: option.splits)

lemma hover_simps [simp]:
  "hoveredElement (hover tr d n) = hoveredElement d"
  "hoverClassed (hover tr d n) = hoverClassed d \<union> set_option (hoveredElement d)"
  "movingLineType (hover tr d n) = movingLineType d"
  "isSortable (hover tr d n) = isSortable d"
  "lineBoundary (hover tr d n) = lineBoundary d"
  by (auto simp: hover_def addHoverClass_def setTimeout_def Let_def split: option.splits)

lemma unhover_simps [simp]:
  "hoveredElement (unhover d) = None"
  "hoverClassed (unhover d) = hoverClassed d - set_option (hoveredElement d)"
  "movingLineType (unhover d) = movingLineType d"
  "isSortable (unhover d) = isSortable d"
  "lineBoundary (unhover d) = lineBoundary d"
  by (auto simp: unhover_def removeHoverClass_def clearTimeout_def Let_def split: option.splits)

lemma reset_simps [simp]:
  "hoveredElement (reset d) = None"
  "hoverClassed (reset d) = hoverClassed d - set_option (hoveredElement d)"
  "treeCalls (reset d) = treeCalls d"
  by (auto simp: reset_def removeHoverClass_def Let_def split: option.splits)

lemma mouseup_calls:
  "treeCalls (onMouseup tr d ev) =
     treeCalls d @
       [Move (currentNodeId d)
          (if getIndexToInsert tr d (getTargetNodeId tr d (getTarget ev)) = - 1
           then getTargetNodeId tr d (getTarget ev)
           else getParentId tr (getTargetNodeId tr d (getTarget ev)))
          (getIndexToInsert tr d (getTargetNodeId tr d (getTarget ev)))]"
  by (simp add: onMouseup_def Let_def)

lemma at_index_first: "at_index (c # cs) 0 = Some c"
  by (simp add: at_index_def)

lemma at_index_last: "xs \<noteq> [] \<Longrightarrow> at_index xs (int (length xs) - 1) = Some (last xs)"
  by (cases xs rule: rev_cases) (auto simp: at_index_def nth_append)

lemma at_index_Nil: "at_index [] i = None"
  by (simp add: at_index_def)

lemma onMouseup_target:
  "getTargetNodeId tr d (getTarget ev) = getTargetNodeId tr d (getTarget ev') \<Longrightarrow>
   onMouseup tr d ev = onMouseup tr d ev'"
  by (simp add: onMouseup_def)

lemma timeouts_drawBoundaryLine: "timeouts (drawBoundaryLine d r b) = timeouts d"
  by (simp add: drawBoundaryLine_def split: option.splits)

lemma timeouts_hover:
  "timeouts (hover tr d n) =
     (if isLeaf tr n then timeouts d
      else timeouts d @ [(nextHandle d, clock d + max 0 (autoOpenDelay d), n)])"
  by (simp add: hover_def addHoverClass_def setTimeout_def Let_def split: option.splits)

lemma timeouts_unhover:
  "timeouts (unhover d) =
     (case timer d of None \<Rightarrow> timeouts d | Some k \<Rightarrow> filter (\<lambda>t. fst t \<noteq> k) (timeouts d))"
  by (simp add: unhover_def removeHoverClass_def clearTimeout_def Let_def split: option.splits)

lemma timeouts_applyMoveAction:
  "timeouts (applyMoveAction tr d n p) =
     (if hoveredElement d = None \<and> isContain d (getBoundingClientRect tr n) p
      then (if isLeaf tr n then timeouts d
            else timeouts d @ [(nextHandle d, clock d + max 0 (autoOpenDelay d), n)])
      else if n \<notin> hoverClassed d \<or> \<not> isContain d (getBoundingClientRect tr n) p
      then (case timer d of None \<Rightarrow> timeouts d
            | Some k \<Rightarrow> filter (\<lambda>t. fst t \<noteq> k) (timeouts d))
      else timeouts d)"
proof -
  have iso: "isContain (d\<lparr>hoveredElement := Some n\<rparr>) r p = isContain d r p" for r
    by (simp add: isContain_def)
  show ?thesis
    by (simp add: applyMoveAction_def Let_def timeouts_drawBoundaryLine timeouts_hover
        timeouts_unhover)
qed

lemma hovered_applyMoveAction:
  "hoveredElement (applyMoveAction tr d n p) =
     (if hoveredElement d = None \<and> isContain d (getBoundingClientRect tr n) p then Some n
      else if n \<notin> hoverClassed d \<or> \<not> isContain d (getBoundingClientRect tr n) p then None
      else hoveredElement d)"
  by (auto simp: applyMoveAction_def Let_def)

lemma movingLineType_applyMoveAction:
  "movingLineType (applyMoveAction tr d n p) =
     (if isSortable d then getBoundaryType d (getBoundingClientRect tr n) p
      else movingLineType d)"
  by (auto simp: applyMoveAction_def Let_def getBoundaryType_def)

lemma config_drawBoundaryLine:
  "autoOpenDelay (drawBoundaryLine d r b) = autoOpenDelay d"
  "useHelper (drawBoundaryLine d r b) = useHelper d"
  by (simp_all add: drawBoundaryLine_def split: option.splits)

lemma config_hover:
  "autoOpenDelay (hover tr d n) = autoOpenDelay d"
  "useHelper (hover tr d n) = useHelper d"
  by (simp_all add: hover_def addHoverClass_def setTimeout_def Let_def split: option.splits)

lemma config_unhover:
  "autoOpenDelay (unhover d) = autoOpenDelay d"
  "useHelper (unhover d) = useHelper d"
  by (simp_all add: unhover_def removeHoverClass_def clearTimeout_def Let_def split: option.splits)

lemma config_reset:
  "autoOpenDelay (reset d) = autoOpenDelay d"
  "useHelper (reset d) = useHelper d"
  "isSortable (reset d) = isSortable d"
  "lineBoundary (reset d) = lineBoundary d"
  by (simp_all add: reset_def removeHoverClass_def Let_def split: option.splits)

lemma config_applyMoveAction:
  "lineBoundary (applyMoveAction tr d n p) = lineBoundary d"
  "autoOpenDelay (applyMoveAction tr d n p) = autoOpenDelay d"
  by (simp_all add: applyMoveAction_def Let_def config_drawBoundaryLine config_hover config_unhover)

lemma config_step:
  "lineBoundary (step tr d e) = lineBoundary d"
  "autoOpenDelay (step tr d e) = autoOpenDelay d"
  by (cases e; simp add: step_def onMousedown_def onMousemove_def onMouseup_def elapse_def Let_def
        config_applyMoveAction config_reset split: option.splits)+

lemma config_run:
  "lineBoundary (run tr d es) = lineBoundary d \<and> autoOpenDelay (run tr d es) = autoOpenDelay d"
  by (induction es arbitrary: d) (simp_all add: config_step)

subsection \<open>The hover class follows the hovered element\<close>

lemma hoverInv_init: "hoverInv (init opts)"
  by (simp add: hoverInv_def init_def)

lemma hoverInv_applyMoveAction: "hoverInv d \<Longrightarrow> hoverInv (applyMoveAction tr d n p)"
  by (auto simp: hoverInv_def applyMoveAction_def Let_def)

lemma hoverInv_step: "hoverInv d \<Longrightarrow> hoverInv (step tr d e)"
proof (cases e)
  case (Mousedown ev)
  assume "hoverInv d"
  then show ?thesis using Mousedown
    by (simp add: step_def onMousedown_def hoverInv_def Let_def)
next
  case (Mousemove ev)
  assume "hoverInv d"
  then show ?thesis using Mousemove
    by (simp add: step_def onMousemove_def hoverInv_applyMoveAction split: option.splits)
next
  case (Mouseup ev)
  assume "hoverInv d"
  then show ?thesis using Mouseup
    by (auto simp: step_def onMouseup_def hoverInv_def Let_def)
next
  case (Elapse ms)
  assume "hoverInv d"
  then show ?thesis using Elapse
    by (simp add: step_def elapse_def hoverInv_def Let_def)
qed

lemma reachable_hoverInv: "reachable d \<Longrightarrow> hoverInv d"
  by (induction rule: reachable.induct) (simp_all add: hoverInv_init hoverInv_step)

lemma hovered_step:
  "hoveredElement (step tr d e) = hoveredElement d \<or>
   hoveredElement (step tr d e) = None \<or>
   (hoveredElement d = None \<and>
    (\<exists>ev n. e = Mousemove ev \<and> nodeId (getTarget ev) = Some n \<and>
       isContain d (getBoundingClientRect tr n) (getMousePos ev) \<and>
       hoveredElement (step tr d e) = Some n))"
  by (cases e)
     (auto simp: step_def onMousedown_def onMousemove_def onMouseup_def elapse_def Let_def
        hovered_applyMoveAction split: option.splits)

lemma reachable_draggingOver: "reachable (draggingOver opts n m y)"
  by (simp add: draggingOver_def reachable_init reachable_step)

subsection \<open>Dropping on a node\<close>

text \<open>
  C1. A drop released over a node \<open>X\<close> during a drag session, where \<open>X\<close> has a sibling
  index (a non-negative \<open>getNodeIndex\<close>), calls \<open>tree.move\<close> once, with the dragged
  node and:
  \<^item> parent \<open>X\<close> and index \<open>-1\<close> when no line type is recorded;
  \<^item> the parent of \<open>X\<close> and the sibling index of \<open>X\<close> when the line type is \<open>top\<close>;
  \<^item> the parent of \<open>X\<close> and the sibling index of \<open>X\<close> plus one when it is \<open>bottom\<close>.
  The parent and index depend on nothing but \<open>X\<close> and the line type: any two sessions
  that agree on them issue the same parent and index.
\<close>

theorem drop_on_node:
  assumes "attached d" and "nodeId (getTarget ev) = Some X" and "0 \<le> getNodeIndex tr (Some X)"
  shows "(movingLineType d = None \<longrightarrow>
            treeCalls (step tr d (Mouseup ev)) =
              treeCalls d @ [Move (currentNodeId d) (Some X) (- 1)]) \<and>
         (movingLineType d = Some Top \<longrightarrow>
            treeCalls (step tr d (Mouseup ev)) =
              treeCalls d @ [Move (currentNodeId d) (getParentId tr (Some X)) (getNodeIndex tr (Some X))]) \<and>
         (movingLineType d = Some Bottom \<longrightarrow>
            treeCalls (step tr d (Mouseup ev)) =
              treeCalls d @ [Move (currentNodeId d) (getParentId tr (Some X)) (getNodeIndex tr (Some X) + 1)]) \<and>
         (\<forall>d' ev'. attached d' \<and> nodeId (getTarget ev') = Some X \<and> movingLineType d' = movingLineType d \<longrightarrow>
            (\<exists>p i. treeCalls (step tr d (Mouseup ev)) = treeCalls d @ [Move (currentNodeId d) p i] \<and>
                   treeCalls (step tr d' (Mouseup ev')) = treeCalls d' @ [Move (currentNodeId d') p i]))"
proof -
  have tgt: "\<And>d' ev'. nodeId (getTarget ev') = Some X \<Longrightarrow> getTargetNodeId tr d' (getTarget ev') = Some X"
    by (simp add: getTargetNodeId_def)
  have up: "\<And>d' ev'. attached d' \<Longrightarrow> nodeId (getTarget ev') = Some X \<Longrightarrow>
      treeCalls (step tr d' (Mouseup ev')) =
        treeCalls d' @ [Move (currentNodeId d')
           (if getIndexToInsert tr d' (Some X) = - 1 then Some X else getParentId tr (Some X))
           (getIndexToInsert tr d' (Some X))]"
    by (simp add: step_def mouseup_calls tgt)
  have a: "movingLineType d = None \<longrightarrow>
            treeCalls (step tr d (Mouseup ev)) =
              treeCalls d @ [Move (currentNodeId d) (Some X) (- 1)]"
    using assms by (simp add: up getIndexToInsert_def)
  have b: "movingLineType d = Some Top \<longrightarrow>
            treeCalls (step tr d (Mouseup ev)) =
              treeCalls d @ [Move (currentNodeId d) (getParentId tr (Some X)) (getNodeIndex tr (Some X))]"
    using assms by (simp add: up getIndexToInsert_def)
  have c: "movingLineType d = Some Bottom \<longrightarrow>
            treeCalls (step tr d (Mouseup ev)) =
              treeCalls d @ [Move (currentNodeId d) (getParentId tr (Some X)) (getNodeIndex tr (Some X) + 1)]"
    using assms by (simp add: up getIndexToInsert_def)
  have e: "\<forall>d' ev'. attached d' \<and> nodeId (getTarget ev') = Some X \<and> movingLineType d' = movingLineType d \<longrightarrow>
            (\<exists>p i. treeCalls (step tr d (Mouseup ev)) = treeCalls d @ [Move (currentNodeId d) p i] \<and>
                   treeCalls (step tr d' (Mouseup ev')) = treeCalls d' @ [Move (currentNodeId d') p i])"
  proof (intro allI impI)
    fix d' :: draggable and ev' :: mouse_event
    assume h: "attached d' \<and> nodeId (getTarget ev') = Some X \<and> movingLineType d' = movingLineType d"
    have i: "getIndexToInsert tr d' (Some X) = getIndexToInsert tr d (Some X)"
      using h by (simp add: getIndexToInsert_def)
    have u1: "treeCalls (step tr d (Mouseup ev)) =
        treeCalls d @ [Move (currentNodeId d)
           (if getIndexToInsert tr d (Some X) = - 1 then Some X else getParentId tr (Some X))
           (getIndexToInsert tr d (Some X))]"
      using assms(1,2) by (rule up)
    have u2: "treeCalls (step tr d' (Mouseup ev')) =
        treeCalls d' @ [Move (currentNodeId d')
           (if getIndexToInsert tr d (Some X) = - 1 then Some X else getParentId tr (Some X))
           (getIndexToInsert tr d (Some X))]"
      using up [of d' ev'] h i by simp
    show "\<exists>p i. treeCalls (step tr d (Mouseup ev)) = treeCalls d @ [Move (currentNodeId d) p i] \<and>
                 treeCalls (step tr d' (Mouseup ev')) = treeCalls d' @ [Move (currentNodeId d') p i]"
      using u1 u2 by blast
  qed
  show ?thesis using a b c e by blast
qed

text \<open>
  On the sample tree, with \<open>A\<close> dragged over \<open>C\<close> (sibling index 2): released in the
  middle of \<open>C\<close>, at its top edge and at its bottom edge.
\<close>

theorem drop_on_node_witness:
  "treeCalls (step sampleTree (draggingOver sortableOptions ''A'' ''C'' 50) (Mouseup (mouseAt (Some ''C'') 5 50)))
     = [Move (Some ''A'') (Some ''C'') (- 1)] \<and>
   treeCalls (step sampleTree (draggingOver sortableOptions ''A'' ''C'' 41) (Mouseup (mouseAt (Some ''C'') 5 41)))
     = [Move (Some ''A'') (Some ''root'') 2] \<and>
   treeCalls (step sampleTree (draggingOver sortableOptions ''A'' ''C'' 59) (Mouseup (mouseAt (Some ''C'') 5 59)))
     = [Move (Some ''A'') (Some ''root'') 3]"
proof -
  have n: "movingLineType (draggingOver sortableOptions ''A'' ''C'' 50) = None"
          "attached (draggingOver sortableOptions ''A'' ''C'' 50)"
          "treeCalls (draggingOver sortableOptions ''A'' ''C'' 50) = []"
          "currentNodeId (draggingOver sortableOptions ''A'' ''C'' 50) = Some ''A''"
    by (simp_all add: sample_defs handler_defs)
  have t: "movingLineType (draggingOver sortableOptions ''A'' ''C'' 41) = Some Top"
          "attached (draggingOver sortableOptions ''A'' ''C'' 41)"
          "treeCalls (draggingOver sortableOptions ''A'' ''C'' 41) = []"
          "currentNodeId (draggingOver sortableOptions ''A'' ''C'' 41) = Some ''A''"
    by (simp_all add: sample_defs handler_defs)
  have b: "movingLineType (draggingOver sortableOptions ''A'' ''C'' 59) = Some Bottom"
          "attached (draggingOver sortableOptions ''A'' ''C'' 59)"
          "treeCalls (draggingOver sortableOptions ''A'' ''C'' 59) = []"
          "currentNodeId (draggingOver sortableOptions ''A'' ''C'' 59) = Some ''A''"
    by (simp_all add: sample_defs handler_defs)
  have h: "nodeId (getTarget (mouseAt (Some ''C'') 5 y)) = Some ''C''"
          "0 \<le> getNodeIndex sampleTree (Some ''C'')"
          "getNodeIndex sampleTree (Some ''C'') = 2"
          "getParentId sampleTree (Some ''C'') = Some ''root''" for y
    by (simp_all add: sample_defs)
  show ?thesis
    using drop_on_node [OF n(2) h(1) h(2)] drop_on_node [OF t(2) h(1) h(2)] drop_on_node [OF b(2) h(1) h(2)]
    by (simp add: n t b h)
qed

subsection \<open>Dropping on the background\<close>

text \<open>
  C5. A drop released over no node, during a drag session on a tree with at least one
  root-level child: when the recorded line type is \<open>top\<close> the target is the first
  root-level child, and the whole effect of the release is the effect of releasing over
  that child; when it is \<open>bottom\<close> the same holds with the last root-level child.
\<close>

theorem background_drop_edges:
  assumes "attached d" and "nodeId (getTarget ev) = None"
    and "getChildIds tr (getRootNodeId tr) = c # cs"
  shows "(movingLineType d = Some Top \<longrightarrow>
            getTargetNodeId tr d (getTarget ev) = Some c \<and>
            step tr d (Mouseup ev) =
              step tr d (Mouseup (ev\<lparr>getTarget := (getTarget ev)\<lparr>nodeId := Some c\<rparr>\<rparr>))) \<and>
         (movingLineType d = Some Bottom \<longrightarrow>
            getTargetNodeId tr d (getTarget ev) = Some (last (c # cs)) \<and>
            step tr d (Mouseup ev) =
              step tr d (Mouseup (ev\<lparr>getTarget := (getTarget ev)\<lparr>nodeId := Some (last (c # cs))\<rparr>\<rparr>)))"
proof -
  have top: "getTargetNodeId tr d (getTarget ev) = Some c" if "movingLineType d = Some Top"
    using assms that by (simp add: getTargetNodeId_def at_index_first)
  have bot: "getTargetNodeId tr d (getTarget ev) = Some (last (c # cs))"
    if "movingLineType d = Some Bottom"
  proof -
    have "at_index (c # cs) (int (length (c # cs)) - 1) = Some (last (c # cs))"
      by (rule at_index_last) simp
    then show ?thesis using assms that by (simp add: getTargetNodeId_def Let_def)
  qed
  have direct: "getTargetNodeId tr d (getTarget (ev\<lparr>getTarget := (getTarget ev)\<lparr>nodeId := Some n\<rparr>\<rparr>)) = Some n"
    for n by (simp add: getTargetNodeId_def)
  have same: "step tr d (Mouseup ev) =
      step tr d (Mouseup (ev\<lparr>getTarget := (getTarget ev)\<lparr>nodeId := Some n\<rparr>\<rparr>))"
    if "getTargetNodeId tr d (getTarget ev) = Some n" for n
    using that direct [of n] assms(1) by (simp add: step_def onMouseup_target)
  show ?thesis using top bot same by blast
qed

text \<open>
  On the sample tree: \<open>C\<close> dragged to the top edge of \<open>A\<close> and released above the
  tree goes before \<open>A\<close>; \<open>A\<close> dragged to the bottom edge of \<open>C\<close> and released
  below the tree goes after \<open>C\<close>.
\<close>

theorem background_drop_edges_witness:
  "treeCalls (step sampleTree (draggingOver sortableOptions ''C'' ''A'' 1) (Mouseup (mouseAt None 5 (- 5))))
     = [Move (Some ''C'') (Some ''root'') 0] \<and>
   step sampleTree (draggingOver sortableOptions ''C'' ''A'' 1) (Mouseup (mouseAt None 5 (- 5))) =
   step sampleTree (draggingOver sortableOptions ''C'' ''A'' 1) (Mouseup (mouseAt (Some ''A'') 5 (- 5))) \<and>
   treeCalls (step sampleTree (draggingOver sortableOptions ''A'' ''C'' 59) (Mouseup (mouseAt None 5 70)))
     = [Move (Some ''A'') (Some ''root'') 3] \<and>
   step sampleTree (draggingOver sortableOptions ''A'' ''C'' 59) (Mouseup (mouseAt None 5 70)) =
   step sampleTree (draggingOver sortableOptions ''A'' ''C'' 59) (Mouseup (mouseAt (Some ''C'') 5 70))"
proof -
  have t: "attached (draggingOver sortableOptions ''C'' ''A'' 1)"
          "movingLineType (draggingOver sortableOptions ''C'' ''A'' 1) = Some Top"
    by (simp_all add: sample_defs handler_defs)
  have b: "attached (draggingOver sortableOptions ''A'' ''C'' 59)"
          "movingLineType (draggingOver sortableOptions ''A'' ''C'' 59) = Some Bottom"
    by (simp_all add: sample_defs handler_defs)
  have h: "nodeId (getTarget (mouseAt None 5 y)) = None"
          "getChildIds sampleTree (getRootNodeId sampleTree) = ''A'' # [''B'', ''C'']" for y
    by (simp_all add: sample_defs)
  have e: "(mouseAt None 5 y)\<lparr>getTarget := (getTarget (mouseAt None 5 y))\<lparr>nodeId := Some n\<rparr>\<rparr>
            = mouseAt (Some n) 5 y" for n y
    by (simp add: mouseAt_def)
  have c1: "treeCalls (step sampleTree (draggingOver sortableOptions ''C'' ''A'' 1) (Mouseup (mouseAt (Some ''A'') 5 (- 5))))
     = [Move (Some ''C'') (Some ''root'') 0]"
    by (simp add: sample_defs handler_defs)
  have c2: "treeCalls (step sampleTree (draggingOver sortableOptions ''A'' ''C'' 59) (Mouseup (mouseAt (Some ''C'') 5 70)))
     = [Move (Some ''A'') (Some ''root'') 3]"
    by (simp add: sample_defs handler_defs)
  show ?thesis
    using background_drop_edges [OF t(1) h(1) h(2)] background_drop_edges [OF b(1) h(1) h(2)]
    by (simp add: t b e c1 c2)
qed

text \<open>
  C10. A drop released over no node while no line type is recorded calls \<open>tree.move\<close>
  with index \<open>-1\<close> and the target as the new parent. The target is the last root-level
  child when the root has children; when it has none there is no target
  (\<open>undefined\<close>).
\<close>

theorem background_drop_no_zone:
  assumes "attached d" and "nodeId (getTarget ev) = None" and "movingLineType d = None"
  shows "treeCalls (step tr d (Mouseup ev)) =
           treeCalls d @ [Move (currentNodeId d) (getTargetNodeId tr d (getTarget ev)) (- 1)] \<and>
         (getChildIds tr (getRootNodeId tr) \<noteq> [] \<longrightarrow>
            getTargetNodeId tr d (getTarget ev) = Some (last (getChildIds tr (getRootNodeId tr)))) \<and>
         (getChildIds tr (getRootNodeId tr) = [] \<longrightarrow>
            getTargetNodeId tr d (getTarget ev) = None)"
proof -
  have calls: "treeCalls (step tr d (Mouseup ev)) =
           treeCalls d @ [Move (currentNodeId d) (getTargetNodeId tr d (getTarget ev)) (- 1)]"
    using assms by (simp add: step_def mouseup_calls getIndexToInsert_def)
  have tgt: "getTargetNodeId tr d (getTarget ev) =
      at_index (getChildIds tr (getRootNodeId tr)) (int (length (getChildIds tr (getRootNodeId tr))) - 1)"
    using assms by (simp add: getTargetNodeId_def Let_def)
  show ?thesis using calls tgt by (simp add: at_index_last at_index_Nil)
qed

text \<open>
  On the sample tree \<open>A\<close> becomes a child of \<open>C\<close>; on a tree without root-level
  children the call names no parent.
\<close>

theorem background_drop_no_zone_witness:
  "treeCalls (step sampleTree (dragging noOptions ''A'') (Mouseup (mouseAt None 5 70)))
     = [Move (Some ''A'') (Some ''C'') (- 1)] \<and>
   treeCalls (step emptyTree (dragging noOptions ''A'') (Mouseup (mouseAt None 5 70)))
     = [Move (Some ''A'') None (- 1)]"
proof -
  have a: "attached (dragging noOptions ''A'')" "movingLineType (dragging noOptions ''A'') = None"
          "treeCalls (dragging noOptions ''A'') = []" "currentNodeId (dragging noOptions ''A'') = Some ''A''"
    by (simp_all add: sample_defs handler_defs)
  have h: "nodeId (getTarget (mouseAt None 5 70)) = None"
          "getChildIds sampleTree (getRootNodeId sampleTree) = [''A'', ''B'', ''C'']"
          "getChildIds emptyTree (getRootNodeId emptyTree) = []"
    by (simp_all add: sample_defs)
  show ?thesis
    using background_drop_no_zone [OF a(1) h(1) a(2), of sampleTree]
          background_drop_no_zone [OF a(1) h(1) a(2), of emptyTree]
    by (simp add: a h)
qed

subsection \<open>Geometry\<close>

text \<open>
  C4. The pointer is contained in a node's rectangle exactly when \<open>left < x < right\<close>
  and, in sortable mode, \<open>top + marginTop < y < bottom - marginBottom\<close>, otherwise
  \<open>top < y < bottom\<close>. So with non-negative margins every position strictly inside the
  core of the rectangle is contained, sortable or not.
\<close>

theorem isContain_iff:
  "(isContain d r p \<longleftrightarrow>
      left_r r < x_pos p \<and> x_pos p < right_r r \<and>
      (if isSortable d
       then top_r r + top_b (lineBoundary d) < y_pos p \<and>
            y_pos p < bottom_r r - bottom_b (lineBoundary d)
       else top_r r < y_pos p \<and> y_pos p < bottom_r r)) \<and>
   (left_r r < x_pos p \<and> x_pos p < right_r r \<and>
    top_r r + top_b (lineBoundary d) < y_pos p \<and>
    y_pos p < bottom_r r - bottom_b (lineBoundary d) \<and>
    0 \<le> top_b (lineBoundary d) \<and> 0 \<le> bottom_b (lineBoundary d)
      \<longrightarrow> isContain d r p)"
  by (auto simp: isContain_def Let_def)

text \<open>
  Node \<open>B\<close> spans 20 to 40: height 30 is in its core, height 22 only in its top margin.
\<close>

theorem isContain_iff_witness:
  "isContain (init sortableOptions) (sampleRect ''B'') \<lparr>x_pos = 5, y_pos = 30\<rparr> \<and>
   \<not> isContain (init sortableOptions) (sampleRect ''B'') \<lparr>x_pos = 5, y_pos = 22\<rparr> \<and>
   isContain (init noOptions) (sampleRect ''B'') \<lparr>x_pos = 5, y_pos = 22\<rparr>"
  using isContain_iff [of "init sortableOptions" "sampleRect ''B''" "\<lparr>x_pos = 5, y_pos = 30\<rparr>"]
        isContain_iff [of "init sortableOptions" "sampleRect ''B''" "\<lparr>x_pos = 5, y_pos = 22\<rparr>"]
        isContain_iff [of "init noOptions" "sampleRect ''B''" "\<lparr>x_pos = 5, y_pos = 22\<rparr>"]
  by (simp add: sample_defs)

text \<open>
  C3, as the code has it. The line type is \<open>top\<close> when \<open>y < top + marginTop\<close>,
  else \<open>bottom\<close> when \<open>y > bottom - marginBottom\<close>, else none. With
  \<open>marginTop = 4\<close>, \<open>y = top\<close> is \<open>top\<close>. With \<open>marginBottom = 4\<close>,
  \<open>y = bottom\<close> is \<open>bottom\<close> provided the rectangle is at least \<open>marginTop\<close> high.
  The midpoint has no line type provided it lies in neither margin.
\<close>

theorem getBoundaryType_zones:
  "(y_pos p < top_r r + top_b (lineBoundary d) \<longrightarrow> getBoundaryType d r p = Some Top) \<and>
   (\<not> y_pos p < top_r r + top_b (lineBoundary d) \<and>
      y_pos p > bottom_r r - bottom_b (lineBoundary d) \<longrightarrow> getBoundaryType d r p = Some Bottom) \<and>
   (\<not> y_pos p < top_r r + top_b (lineBoundary d) \<and>
      \<not> y_pos p > bottom_r r - bottom_b (lineBoundary d) \<longrightarrow> getBoundaryType d r p = None) \<and>
   (top_b (lineBoundary d) = 4 \<and> y_pos p = top_r r \<longrightarrow> getBoundaryType d r p = Some Top) \<and>
   (bottom_b (lineBoundary d) = 4 \<and> y_pos p = bottom_r r \<and>
      top_r r + top_b (lineBoundary d) \<le> bottom_r r \<longrightarrow> getBoundaryType d r p = Some Bottom) \<and>
   (y_pos p = (top_r r + bottom_r r) / 2 \<and>
      top_r r + top_b (lineBoundary d) \<le> y_pos p \<and>
      y_pos p \<le> bottom_r r - bottom_b (lineBoundary d) \<longrightarrow> getBoundaryType d r p = None)"
  by (auto simp: getBoundaryType_def)

text \<open>Node \<open>A\<close> spans 0 to 20, with the default margins of 4.\<close>

theorem getBoundaryType_zones_witness:
  "getBoundaryType (init noOptions) (sampleRect ''A'') \<lparr>x_pos = 5, y_pos = 0\<rparr> = Some Top \<and>
   getBoundaryType (init noOptions) (sampleRect ''A'') \<lparr>x_pos = 5, y_pos = 20\<rparr> = Some Bottom \<and>
   getBoundaryType (init noOptions) (sampleRect ''A'') \<lparr>x_pos = 5, y_pos = (0 + 20) / 2\<rparr> = None"
  using getBoundaryType_zones [of "\<lparr>x_pos = 5, y_pos = 0\<rparr>" "sampleRect ''A''" "init noOptions"]
        getBoundaryType_zones [of "\<lparr>x_pos = 5, y_pos = 20\<rparr>" "sampleRect ''A''" "init noOptions"]
        getBoundaryType_zones [of "\<lparr>x_pos = 5, y_pos = (0 + 20) / 2\<rparr>" "sampleRect ''A''" "init noOptions"]
  by (simp add: sample_defs)

text \<open>
  The \<open>top\<close> test comes first, so on a rectangle lower than the top margin the bottom
  edge is \<open>top\<close>, and on one lower than twice the margin so is the midpoint: with the
  default margins of 4, the bottom edge of a rectangle 2 high and the midpoint of one
  6 high.
\<close>

theorem getBoundaryType_counterexample:
  "bottom_b (lineBoundary (init noOptions)) = 4 \<and>
   getBoundaryType (init noOptions)
      \<lparr>top_r = 0, bottom_r = 2, left_r = 0, right_r = 100\<rparr> \<lparr>x_pos = 5, y_pos = 2\<rparr> = Some Top \<and>
   getBoundaryType (init noOptions)
      \<lparr>top_r = 0, bottom_r = 6, left_r = 0, right_r = 100\<rparr> \<lparr>x_pos = 5, y_pos = (0 + 6) / 2\<rparr> = Some Top"
  by (simp add: getBoundaryType_def sample_defs)

subsection \<open>Hover\<close>

text \<open>
  C7, as the code has it. In every reachable state the elements carrying the hover class
  are exactly the hovered element, so at most one node is hovered, before and after every
  event. An event leaves the hovered element as it is, or clears it, or, when none was
  hovered, sets it to the node under a move sample that contains the pointer. It never
  replaces one hovered node by another.
\<close>

theorem hover_at_most_one:
  assumes "reachable d"
  shows "hoverClassed d = set_option (hoveredElement d) \<and>
         hoverClassed (step tr d e) = set_option (hoveredElement (step tr d e)) \<and>
         (hoveredElement (step tr d e) = hoveredElement d \<or>
          hoveredElement (step tr d e) = None \<or>
          (hoveredElement d = None \<and>
           (\<exists>ev n. e = Mousemove ev \<and> nodeId (getTarget ev) = Some n \<and>
              isContain d (getBoundingClientRect tr n) (getMousePos ev) \<and>
              hoveredElement (step tr d e) = Some n))) \<and>
         (\<forall>a b. hoveredElement d = Some a \<and> hoveredElement (step tr d e) = Some b \<longrightarrow> a = b)"
proof -
  have inv: "hoverInv d" using assms by (rule reachable_hoverInv)
  have inv': "hoverInv (step tr d e)" using inv by (rule hoverInv_step)
  have tri: "hoveredElement (step tr d e) = hoveredElement d \<or>
          hoveredElement (step tr d e) = None \<or>
          (hoveredElement d = None \<and>
           (\<exists>ev n. e = Mousemove ev \<and> nodeId (getTarget ev) = Some n \<and>
              isContain d (getBoundingClientRect tr n) (getMousePos ev) \<and>
              hoveredElement (step tr d e) = Some n))"
    by (rule hovered_step)
  have sw: "\<forall>a b. hoveredElement d = Some a \<and> hoveredElement (step tr d e) = Some b \<longrightarrow> a = b"
    using tri by auto
  show ?thesis using inv inv' tri sw unfolding hoverInv_def by blast
qed

text \<open>With \<open>B\<close> hovered, a sample over \<open>C\<close> clears the hover.\<close>

theorem hover_at_most_one_witness:
  "reachable (draggingOver noOptions ''A'' ''B'' 30) \<and>
   hoverClassed (draggingOver noOptions ''A'' ''B'' 30) = {''B''} \<and>
   hoveredElement (step sampleTree (draggingOver noOptions ''A'' ''B'' 30)
      (Mousemove (mouseAt (Some ''C'') 5 45))) = None \<and>
   hoverClassed (step sampleTree (draggingOver noOptions ''A'' ''B'' 30)
      (Mousemove (mouseAt (Some ''C'') 5 45))) = {}"
proof -
  have r: "reachable (draggingOver noOptions ''A'' ''B'' 30)"
    by (rule reachable_draggingOver)
  have h: "hoveredElement (draggingOver noOptions ''A'' ''B'' 30) = Some ''B''"
    by (simp add: sample_defs handler_defs)
  have s: "hoveredElement (step sampleTree (draggingOver noOptions ''A'' ''B'' 30)
      (Mousemove (mouseAt (Some ''C'') 5 45))) = None"
    by (simp add: sample_defs handler_defs)
  show ?thesis
    using hover_at_most_one [OF r, of sampleTree "Mousemove (mouseAt (Some ''C'') 5 45)"] r
    by (simp add: h s)
qed

text \<open>
  A sample that stays inside the hovered node neither enters nor exits: with \<open>B\<close>
  hovered, a second sample inside \<open>B\<close> changes nothing.
\<close>

theorem hover_counterexample:
  "attached (draggingOver noOptions ''A'' ''B'' 30) \<and>
   hoveredElement (draggingOver noOptions ''A'' ''B'' 30) = Some ''B'' \<and>
   step sampleTree (draggingOver noOptions ''A'' ''B'' 30) (Mousemove (mouseAt (Some ''B'') 5 31))
     = draggingOver noOptions ''A'' ''B'' 30"
  by (simp add: sample_defs handler_defs)

subsection \<open>Button down during a session\<close>

text \<open>
  C6, as the code has it. While a session is active, a \<open>mousedown\<close> is ignored when it
  is not eligible (right button, rejected tag or class, a label being edited). An eligible
  one replaces the dragged node id by the node under it and changes nothing else: the
  session stays active and the hovered element, the line type, the timer and the pending
  timeouts are as before.
\<close>

theorem mousedown_while_active:
  assumes "attached d"
  shows "(isRightButton ev \<or> isNotDraggable d (getTarget ev) \<or> isEditing tr \<longrightarrow>
            step tr d (Mousedown ev) = d) \<and>
         (\<not> (isRightButton ev \<or> isNotDraggable d (getTarget ev) \<or> isEditing tr) \<longrightarrow>
            step tr d (Mousedown ev) = d\<lparr>currentNodeId := nodeId (getTarget ev)\<rparr>) \<and>
         attached (step tr d (Mousedown ev)) \<and>
         hoveredElement (step tr d (Mousedown ev)) = hoveredElement d \<and>
         movingLineType (step tr d (Mousedown ev)) = movingLineType d \<and>
         timer (step tr d (Mousedown ev)) = timer d \<and>
         timeouts (step tr d (Mousedown ev)) = timeouts d"
  using assms by (simp add: step_def onMousedown_def Let_def)

text \<open>
  While \<open>A\<close> is dragged over \<open>B\<close>: the left button on \<open>C\<close>, and the right button.
\<close>

theorem mousedown_while_active_witness:
  "step sampleTree (draggingOver noOptions ''A'' ''B'' 30) (Mousedown (mouseAt (Some ''C'') 5 45))
     = (draggingOver noOptions ''A'' ''B'' 30)\<lparr>currentNodeId := Some ''C''\<rparr> \<and>
   step sampleTree (draggingOver noOptions ''A'' ''B'' 30)
      (Mousedown ((mouseAt (Some ''C'') 5 45)\<lparr>isRightButton := True\<rparr>))
     = draggingOver noOptions ''A'' ''B'' 30"
proof -
  have a: "attached (draggingOver noOptions ''A'' ''B'' 30)"
    by (simp add: sample_defs handler_defs)
  have e: "\<not> (isRightButton (mouseAt (Some ''C'') 5 45) \<or>
              isNotDraggable (draggingOver noOptions ''A'' ''B'' 30) (getTarget (mouseAt (Some ''C'') 5 45)) \<or>
              isEditing sampleTree)"
    by (simp add: sample_defs handler_defs)
  have n: "nodeId (getTarget (mouseAt (Some ''C'') 5 45)) = Some ''C''"
          "isRightButton ((mouseAt (Some ''C'') 5 45)\<lparr>isRightButton := True\<rparr>)"
    by (simp_all add: mouseAt_def)
  show ?thesis
    using mousedown_while_active [OF a, of "mouseAt (Some ''C'') 5 45" sampleTree]
          mousedown_while_active [OF a, of "(mouseAt (Some ''C'') 5 45)\<lparr>isRightButton := True\<rparr>" sampleTree]
          e n
    by simp
qed

text \<open>
  \<open>_onMousedown\<close> does not look at whether a session is active: while \<open>A\<close> is
  dragged, a button down on \<open>B\<close> makes \<open>B\<close> the dragged node.
\<close>

theorem mousedown_counterexample:
  "attached (dragging noOptions ''A'') \<and>
   currentNodeId (dragging noOptions ''A'') = Some ''A'' \<and>
   currentNodeId (step sampleTree (dragging noOptions ''A'') (Mousedown (mouseAt (Some ''B'') 5 30)))
     = Some ''B''"
  by (simp add: sample_defs handler_defs)

subsection \<open>Construction\<close>

text \<open>
  C8, as the code has it. The constructor checks nothing: the boundary margins and the
  auto-open delay are the ones given in the options, whatever their sign (4, 4 and 1500
  when absent), and they stay so through every later event.
\<close>

theorem init_keeps_options:
  "lineBoundary (run tr (init opts) es) =
     (case opt_lineBoundary opts of None \<Rightarrow> defaultLineBoundary | Some b \<Rightarrow> b) \<and>
   autoOpenDelay (run tr (init opts) es) =
     (case opt_autoOpenDelay opts of None \<Rightarrow> 1500 | Some n \<Rightarrow> n)"
  by (simp add: config_run init_def)

text \<open>A top margin of \<open>-1\<close> and a delay of \<open>-1\<close>, after a button down and a move.\<close>

theorem init_keeps_options_witness:
  "lineBoundary (draggingOver negativeMarginOptions ''A'' ''B'' 30) = \<lparr>top_b = - 1, bottom_b = 4\<rparr> \<and>
   autoOpenDelay (draggingOver negativeDelayOptions ''A'' ''B'' 30) = - 1"
  using init_keeps_options [of sampleTree negativeMarginOptions
          "[Mousedown (mouseAt (Some ''A'') 5 5), Mousemove (mouseAt (Some ''B'') 5 30)]"]
        init_keeps_options [of sampleTree negativeDelayOptions
          "[Mousedown (mouseAt (Some ''A'') 5 5), Mousemove (mouseAt (Some ''B'') 5 30)]"]
  by (simp add: draggingOver_def negativeMarginOptions_def negativeDelayOptions_def noOptions_def)

text \<open>
  A top margin of \<open>-1\<close> is constructed and used: the top edge of \<open>A\<close> then has no
  line type (it is \<open>top\<close> with the default margin) and counts as contained. A delay of
  \<open>-1\<close> is constructed as well.
\<close>

theorem init_counterexample:
  "top_b (lineBoundary (init negativeMarginOptions)) = - 1 \<and>
   getBoundaryType (init negativeMarginOptions) (sampleRect ''A'') \<lparr>x_pos = 5, y_pos = 0\<rparr> = None \<and>
   getBoundaryType (init sortableOptions) (sampleRect ''A'') \<lparr>x_pos = 5, y_pos = 0\<rparr> = Some Top \<and>
   isContain (init negativeMarginOptions) (sampleRect ''A'') \<lparr>x_pos = 5, y_pos = 0\<rparr> \<and>
   autoOpenDelay (init negativeDelayOptions) = - 1"
  by (simp add: sample_defs getBoundaryType_def isContain_def)

subsection \<open>Pointer moves\<close>

text \<open>
  C9, as the code has it. A move sample delivered during a session, with \<open>useHelper\<close> on
  and a node under the pointer, is handled by the hover logic (entry when nothing is
  hovered and the pointer is contained, with a timeout for an inner node; exit when the
  node does not carry the hover class or the pointer is not contained, cancelling the
  timeout) and, in sortable mode, records the line type of the pointer position. A sample
  outside a session, or with \<open>useHelper\<close> off, or over no node, changes nothing.
\<close>

theorem mousemove_delegation:
  "(attached d \<and> useHelper d \<and> nodeId (getTarget ev) = Some n \<longrightarrow>
      hoveredElement (step tr d (Mousemove ev)) =
        (if hoveredElement d = None \<and> isContain d (getBoundingClientRect tr n) (getMousePos ev)
         then Some n
         else if n \<notin> hoverClassed d \<or> \<not> isContain d (getBoundingClientRect tr n) (getMousePos ev)
         then None
         else hoveredElement d) \<and>
      timeouts (step tr d (Mousemove ev)) =
        (if hoveredElement d = None \<and> isContain d (getBoundingClientRect tr n) (getMousePos ev)
         then (if isLeaf tr n then timeouts d
               else timeouts d @ [(nextHandle d, clock d + max 0 (autoOpenDelay d), n)])
         else if n \<notin> hoverClassed d \<or> \<not> isContain d (getBoundingClientRect tr n) (getMousePos ev)
         then (case timer d of None \<Rightarrow> timeouts d
               | Some k \<Rightarrow> filter (\<lambda>t. fst t \<noteq> k) (timeouts d))
         else timeouts d) \<and>
      movingLineType (step tr d (Mousemove ev)) =
        (if isSortable d then getBoundaryType d (getBoundingClientRect tr n) (getMousePos ev)
         else movingLineType d)) \<and>
   (\<not> attached d \<or> \<not> useHelper d \<or> nodeId (getTarget ev) = None \<longrightarrow>
      step tr d (Mousemove ev) = d)"
  by (simp add: step_def onMousemove_def hovered_applyMoveAction timeouts_applyMoveAction
        movingLineType_applyMoveAction)

text \<open>
  While \<open>A\<close> is dragged in sortable mode: a sample in the core of \<open>B\<close>, one in its
  top margin, one over the background; and a sample before any session.
\<close>

theorem mousemove_delegation_witness:
  "hoveredElement (step sampleTree (dragging sortableOptions ''A'') (Mousemove (mouseAt (Some ''B'') 5 30)))
     = Some ''B'' \<and>
   timeouts (step sampleTree (dragging sortableOptions ''A'') (Mousemove (mouseAt (Some ''B'') 5 30)))
     = [(0, 1500, ''B'')] \<and>
   movingLineType (step sampleTree (dragging sortableOptions ''A'') (Mousemove (mouseAt (Some ''B'') 5 21)))
     = Some Top \<and>
   step sampleTree (dragging sortableOptions ''A'') (Mousemove (mouseAt None 5 70))
     = dragging sortableOptions ''A'' \<and>
   step sampleTree (init sortableOptions) (Mousemove (mouseAt (Some ''B'') 5 30)) = init sortableOptions"
proof -
  have a: "attached (dragging sortableOptions ''A'')" "useHelper (dragging sortableOptions ''A'')"
          "isSortable (dragging sortableOptions ''A'')"
          "hoveredElement (dragging sortableOptions ''A'') = None"
          "timeouts (dragging sortableOptions ''A'') = []"
          "nextHandle (dragging sortableOptions ''A'') = 0"
          "clock (dragging sortableOptions ''A'') = 0"
          "autoOpenDelay (dragging sortableOptions ''A'') = 1500"
          "\<not> attached (init sortableOptions)"
    by (simp_all add: sample_defs handler_defs)
  have g: "isContain (dragging sortableOptions ''A'') (getBoundingClientRect sampleTree ''B'')
              (getMousePos (mouseAt (Some ''B'') 5 30))"
          "getBoundaryType (dragging sortableOptions ''A'') (getBoundingClientRect sampleTree ''B'')
              (getMousePos (mouseAt (Some ''B'') 5 21)) = Some Top"
          "\<not> isLeaf sampleTree ''B''"
          "nodeId (getTarget (mouseAt m 5 y)) = m" for m y
    by (simp_all add: sample_defs handler_defs)
  show ?thesis
    using mousemove_delegation [of "dragging sortableOptions ''A''" "mouseAt (Some ''B'') 5 30" "''B''" sampleTree]
          mousemove_delegation [of "dragging sortableOptions ''A''" "mouseAt (Some ''B'') 5 21" "''B''" sampleTree]
          mousemove_delegation [of "dragging sortableOptions ''A''" "mouseAt None 5 70" "''B''" sampleTree]
          mousemove_delegation [of "init sortableOptions" "mouseAt (Some ''B'') 5 30" "''B''" sampleTree]
    by (simp add: a g)
qed

text \<open>
  With \<open>useHelper\<close> off and sortable mode on, samples during a session change nothing:
  one in the core of \<open>B\<close> does not hover it, one in its top margin records no line
  type.
\<close>

theorem mousemove_counterexample:
  "attached (dragging noHelperOptions ''A'') \<and>
   isSortable (dragging noHelperOptions ''A'') \<and>
   isContain (dragging noHelperOptions ''A'') (sampleRect ''B'') \<lparr>x_pos = 5, y_pos = 30\<rparr> \<and>
   step sampleTree (dragging noHelperOptions ''A'') (Mousemove (mouseAt (Some ''B'') 5 30))
     = dragging noHelperOptions ''A'' \<and>
   getBoundaryType (dragging noHelperOptions ''A'') (sampleRect ''B'') \<lparr>x_pos = 5, y_pos = 21\<rparr> = Some Top \<and>
   step sampleTree (dragging noHelperOptions ''A'') (Mousemove (mouseAt (Some ''B'') 5 21))
     = dragging noHelperOptions ''A''"
  by (simp add: sample_defs handler_defs)

subsection \<open>The auto-open timeout\<close>

text \<open>
  C2. \<open>_unhover\<close> clears the timeout, \<open>_reset\<close> does not. With the default delay of
  1500: \<open>A\<close> is dragged onto the inner node \<open>B\<close> and released after 1000; 500 later
  \<open>tree.open\<close> is called on \<open>B\<close>, after the move. When the pointer instead leaves
  \<open>B\<close> for \<open>C\<close> after 1000, \<open>tree.open\<close> is never called.
\<close>

theorem timer_survives_reset:
  "treeCalls (run sampleTree (init noOptions)
      [Mousedown (mouseAt (Some ''A'') 5 5), Mousemove (mouseAt (Some ''B'') 5 30), Elapse 1000,
       Mouseup (mouseAt (Some ''B'') 5 30), Elapse 500])
     = [Move (Some ''A'') (Some ''B'') (- 1), Open ''B''] \<and>
   treeCalls (run sampleTree (init noOptions)
      [Mousedown (mouseAt (Some ''A'') 5 5), Mousemove (mouseAt (Some ''B'') 5 30), Elapse 1000,
       Mousemove (mouseAt (Some ''C'') 5 45), Elapse 1000])
     = []"
  by (simp add: sample_defs handler_defs)

end
